theory Spec2Isabelle
  imports Complex_Main "HOL-Library.Word"
begin

section \<open>JavaScript values\<close>

text \<open>
  The poller of \<^verbatim>\<open>src/lib/poller.js\<close> reads configuration values, inspects thrown
  errors and inspects responses; all of them are untyped JavaScript values.

  A JavaScript number is a finite number, \<open>NaN\<close> or one of the infinities. Finite
  numbers are modelled as exact rationals: the rounding of IEEE doubles and the sign of
  zero are not modelled. Values that the source only ever holds as integers (the
  milliseconds of \<^verbatim>\<open>Date.now()\<close>, the results of \<^verbatim>\<open>Math.trunc\<close>, \<^verbatim>\<open>Math.ceil\<close> and
  \<^verbatim>\<open>Math.floor\<close>) are of type \<open>int\<close>.
\<close>

datatype jsnum = Fin rat | NaN | PosInf | NegInf

text \<open>
  A JavaScript string is a sequence of UTF-16 code units. The string literals of the
  source are ASCII, one code unit for each character: \<open>ascii\<close> gives their code units.
  The names of properties and the paths of the configuration, which the poller only
  compares with its own ASCII literals, stay byte strings.
\<close>

type_synonym code_unit = "16 word"

type_synonym jsstring = "code_unit list"

definition cu :: "char \<Rightarrow> code_unit" where
  "cu c = of_nat (of_char c)"

definition ascii :: "string \<Rightarrow> jsstring" where
  "ascii s = map cu s"

datatype jsval =
    JUndefined
  | JNull
  | JBool bool
  | JNum jsnum
  | JStr jsstring
  | JArr "jsval list"
  | JObj "(string \<times> jsval) list"

text \<open>
  Property read \<^verbatim>\<open>v[k]\<close> on a value that is neither \<^verbatim>\<open>null\<close> nor \<^verbatim>\<open>undefined\<close>, for the
  property names the poller uses (\<^verbatim>\<open>response\<close>, \<^verbatim>\<open>statusCode\<close>, \<^verbatim>\<open>status\<close>, \<^verbatim>\<open>items\<close>):
  an object yields the stored value or \<^verbatim>\<open>undefined\<close>; primitives and arrays have no
  such property. The first binding of a key in the list is the object's property.
\<close>

definition getProp :: "jsval \<Rightarrow> string \<Rightarrow> jsval" where
  "getProp v k =
     (case v of
        JObj kvs \<Rightarrow> (case map_of kvs k of Some x \<Rightarrow> x | None \<Rightarrow> JUndefined)
      | _ \<Rightarrow> JUndefined)"

text \<open>\<^verbatim>\<open>v == null\<close>: the value is \<^verbatim>\<open>null\<close> or \<^verbatim>\<open>undefined\<close>.\<close>

definition nullish :: "jsval \<Rightarrow> bool" where
  "nullish v = (v = JUndefined \<or> v = JNull)"

text \<open>Optional chaining \<^verbatim>\<open>v?.k\<close>.\<close>

definition optChain :: "jsval \<Rightarrow> string \<Rightarrow> jsval" where
  "optChain v k = (if nullish v then JUndefined else getProp v k)"

text \<open>Nullish coalescing \<^verbatim>\<open>a ?? b\<close>.\<close>

definition coalesce :: "jsval \<Rightarrow> jsval \<Rightarrow> jsval" where
  "coalesce a b = (if nullish a then b else a)"

text \<open>\<^verbatim>\<open>!!v\<close>: everything is truthy except \<^verbatim>\<open>undefined\<close>, \<^verbatim>\<open>null\<close>, \<^verbatim>\<open>false\<close>, zero,
  \<^verbatim>\<open>NaN\<close> and the empty string. Arrays and objects are truthy, also when empty.\<close>

fun truthy :: "jsval \<Rightarrow> bool" where
  "truthy JUndefined = False"
| "truthy JNull = False"
| "truthy (JBool b) = b"
| "truthy (JNum (Fin q)) = (q \<noteq> 0)"
| "truthy (JNum NaN) = False"
| "truthy (JNum PosInf) = True"
| "truthy (JNum NegInf) = True"
| "truthy (JStr s) = (s \<noteq> [])"
| "truthy (JArr xs) = True"
| "truthy (JObj kvs) = True"

section \<open>HTTP-403 classification\<close>

text \<open>
  \<^verbatim>\<open>
  function isHttp403(error) {
    const code =
      error?.response?.statusCode ??
      error?.response?.status ??
      error?.statusCode ??
      error?.status;
    return code === 403;
  }
  \<close>
\<close>

definition statusCodeOf :: "jsval \<Rightarrow> jsval" where
  "statusCodeOf error =
     coalesce (optChain (optChain error ''response'') ''statusCode'')
       (coalesce (optChain (optChain error ''response'') ''status'')
          (coalesce (optChain error ''statusCode'')
             (optChain error ''status'')))"

definition isHttp403 :: "jsval \<Rightarrow> bool" where
  "isHttp403 error = (statusCodeOf error = JNum (Fin 403))"

text \<open>The four places the classification looks at, in the order of the source.\<close>

definition statusLocations :: "jsval \<Rightarrow> jsval list" where
  "statusLocations error =
     [optChain (optChain error ''response'') ''statusCode'',
      optChain (optChain error ''response'') ''status'',
      optChain error ''statusCode'',
      optChain error ''status'']"

text \<open>The first value of a list that is neither \<^verbatim>\<open>null\<close> nor \<^verbatim>\<open>undefined\<close>.\<close>

fun firstNonNullish :: "jsval list \<Rightarrow> jsval option" where
  "firstNonNullish [] = None"
| "firstNonNullish (v # vs) = (if nullish v then firstNonNullish vs else Some v)"

section \<open>Numeric coercion\<close>

text \<open>
  \<^verbatim>\<open>Number(v)\<close> on a string parses a \<^verbatim>\<open>StringNumericLiteral\<close>: white space is trimmed,
  the empty string is 0, then either an unsigned binary, octal or hexadecimal integer
  (\<^verbatim>\<open>0b\<close>, \<^verbatim>\<open>0o\<close>, \<^verbatim>\<open>0x\<close>) or an optionally signed decimal literal or \<^verbatim>\<open>Infinity\<close>;
  anything else is \<^verbatim>\<open>NaN\<close>.

  The characters trimmed are those of \<^verbatim>\<open>WhiteSpace\<close> and \<^verbatim>\<open>LineTerminator\<close>: tab
  (U+0009), vertical tab (U+000B), form feed (U+000C), the byte order mark (U+FEFF), the
  space separators of Unicode (U+0020, U+00A0, U+1680, U+2000 to U+200A, U+202F, U+205F,
  U+3000), line feed (U+000A), carriage return (U+000D) and the line and paragraph
  separators (U+2028, U+2029). Each is a single code unit.
\<close>

definition isWhiteSpace :: "code_unit \<Rightarrow> bool" where
  "isWhiteSpace c =
     (c = 0x0009 \<or> c = 0x000B \<or> c = 0x000C \<or> c = 0xFEFF
      \<or> c = 0x0020 \<or> c = 0x00A0 \<or> c = 0x1680 \<or> (0x2000 \<le> c \<and> c \<le> 0x200A)
      \<or> c = 0x202F \<or> c = 0x205F \<or> c = 0x3000
      \<or> c = 0x000A \<or> c = 0x000D \<or> c = 0x2028 \<or> c = 0x2029)"

definition trimString :: "jsstring \<Rightarrow> jsstring" where
  "trimString s = rev (dropWhile isWhiteSpace (rev (dropWhile isWhiteSpace s)))"

text \<open>The value of the code unit \<open>c\<close> as a digit of base \<open>b\<close>: the digits
  \<^verbatim>\<open>0\<close> to \<^verbatim>\<open>9\<close> are the code units 48 to 57, \<^verbatim>\<open>a\<close> to \<^verbatim>\<open>f\<close> are 97 to 102 and
  \<^verbatim>\<open>A\<close> to \<^verbatim>\<open>F\<close> are 65 to 70.\<close>

definition digitOf :: "nat \<Rightarrow> code_unit \<Rightarrow> nat option" where
  "digitOf b c =
     (let n = unat c;
          d = (if 48 \<le> n \<and> n \<le> 57 then Some (n - 48)
               else if 97 \<le> n \<and> n \<le> 102 then Some (n - 87)
               else if 65 \<le> n \<and> n \<le> 70 then Some (n - 55)
               else None)
      in case d of None \<Rightarrow> None | Some v \<Rightarrow> if v < b then Some v else None)"

definition isDigit :: "code_unit \<Rightarrow> bool" where
  "isDigit c = (digitOf 10 c \<noteq> None)"

fun digitsValue :: "nat \<Rightarrow> nat \<Rightarrow> jsstring \<Rightarrow> nat option" where
  "digitsValue b acc [] = Some acc"
| "digitsValue b acc (c # cs) =
     (case digitOf b c of None \<Rightarrow> None | Some d \<Rightarrow> digitsValue b (acc * b + d) cs)"

text \<open>A non-empty run of decimal digits.\<close>

definition decimalDigits :: "jsstring \<Rightarrow> nat option" where
  "decimalDigits ds = (if ds = [] then None else digitsValue 10 0 ds)"

text \<open>The optional exponent part: nothing, or \<^verbatim>\<open>e\<close>/\<^verbatim>\<open>E\<close>, an optional sign and digits.\<close>

definition exponentPart :: "jsstring \<Rightarrow> int option" where
  "exponentPart s =
     (case s of
        [] \<Rightarrow> Some 0
      | c # rest \<Rightarrow>
          if c = cu (CHR ''e'') \<or> c = cu (CHR ''E'') then
            (case rest of
               [] \<Rightarrow> None
             | d # ds \<Rightarrow>
                 if d = cu (CHR ''+'') then map_option int (decimalDigits ds)
                 else if d = cu (CHR ''-'') then map_option (\<lambda>n. - int n) (decimalDigits ds)
                 else map_option int (decimalDigits rest))
          else None)"

definition scale10 :: "rat \<Rightarrow> int \<Rightarrow> rat" where
  "scale10 m e = (if 0 \<le> e then m * 10 ^ nat e else m / 10 ^ nat (- e))"

text \<open>Digits, an optional fraction and an optional exponent; a digit is required before
  or after the point.\<close>

definition unsignedDecimalLiteral :: "jsstring \<Rightarrow> rat option" where
  "unsignedDecimalLiteral s =
     (let ip = takeWhile isDigit s;
          r1 = dropWhile isDigit s;
          hasDot = (r1 \<noteq> [] \<and> hd r1 = cu (CHR ''.''));
          fp = (if hasDot then takeWhile isDigit (tl r1) else []);
          r2 = (if hasDot then dropWhile isDigit (tl r1) else r1)
      in if ip = [] \<and> fp = [] then None
         else case exponentPart r2 of
                None \<Rightarrow> None
              | Some e \<Rightarrow>
                  (case digitsValue 10 0 (ip @ fp) of
                     None \<Rightarrow> None
                   | Some m \<Rightarrow> Some (scale10 (of_nat m) (e - int (length fp)))))"

text \<open>A parsed value beyond the range of a double is an infinity: the largest double is
  \<open>2 ^ 1024 - 2 ^ 971\<close>, and from half a unit above it the value rounds to infinity.\<close>

definition finiteOrInf :: "rat \<Rightarrow> jsnum" where
  "finiteOrInf q =
     (if 2 ^ 1024 - 2 ^ 970 \<le> q then PosInf
      else if q \<le> - (2 ^ 1024 - 2 ^ 970) then NegInf
      else Fin q)"

definition negate :: "jsnum \<Rightarrow> jsnum" where
  "negate n = (case n of Fin q \<Rightarrow> Fin (- q) | NaN \<Rightarrow> NaN | PosInf \<Rightarrow> NegInf | NegInf \<Rightarrow> PosInf)"

definition unsignedDecimal :: "jsstring \<Rightarrow> jsnum" where
  "unsignedDecimal s =
     (if s = ascii ''Infinity'' then PosInf
      else case unsignedDecimalLiteral s of None \<Rightarrow> NaN | Some q \<Rightarrow> finiteOrInf q)"

definition signedDecimal :: "jsstring \<Rightarrow> jsnum" where
  "signedDecimal s =
     (case s of
        [] \<Rightarrow> NaN
      | c # cs \<Rightarrow>
          if c = cu (CHR ''+'') then unsignedDecimal cs
          else if c = cu (CHR ''-'') then negate (unsignedDecimal cs)
          else unsignedDecimal s)"

definition radixOf :: "code_unit \<Rightarrow> nat option" where
  "radixOf c =
     (if c = cu (CHR ''x'') \<or> c = cu (CHR ''X'') then Some 16
      else if c = cu (CHR ''o'') \<or> c = cu (CHR ''O'') then Some 8
      else if c = cu (CHR ''b'') \<or> c = cu (CHR ''B'') then Some 2
      else None)"

definition nonDecimalInteger :: "nat \<Rightarrow> jsstring \<Rightarrow> jsnum" where
  "nonDecimalInteger b ds =
     (if ds = [] then NaN
      else case digitsValue b 0 ds of None \<Rightarrow> NaN | Some n \<Rightarrow> finiteOrInf (of_nat n))"

definition StringToNumber :: "jsstring \<Rightarrow> jsnum" where
  "StringToNumber str =
     (let s = trimString str
      in case s of
           [] \<Rightarrow> Fin 0
         | [c] \<Rightarrow> signedDecimal s
         | c # d # ds \<Rightarrow>
             (if c = cu (CHR ''0'') then
                (case radixOf d of Some b \<Rightarrow> nonDecimalInteger b ds | None \<Rightarrow> signedDecimal s)
              else signedDecimal s))"

text \<open>
  \<^verbatim>\<open>Number(v)\<close>. A plain object converts to the string \<^verbatim>\<open>[object Object]\<close> and so to
  \<^verbatim>\<open>NaN\<close>. An array converts to the comma-joined strings of its elements, where \<^verbatim>\<open>null\<close>
  and \<^verbatim>\<open>undefined\<close> are empty: the empty array is 0, an array of one element is the number
  of that element's string, and a longer array contains a comma and is \<^verbatim>\<open>NaN\<close>.
\<close>

fun Number :: "jsval \<Rightarrow> jsnum" where
  "Number JUndefined = NaN"
| "Number JNull = Fin 0"
| "Number (JBool b) = (if b then Fin 1 else Fin 0)"
| "Number (JNum n) = n"
| "Number (JStr s) = StringToNumber s"
| "Number (JObj kvs) = NaN"
| "Number (JArr []) = Fin 0"
| "Number (JArr [JUndefined]) = Fin 0"
| "Number (JArr [JNull]) = Fin 0"
| "Number (JArr [JBool b]) = NaN"
| "Number (JArr [JNum n]) = n"
| "Number (JArr [JStr s]) = StringToNumber s"
| "Number (JArr [JObj kvs]) = NaN"
| "Number (JArr [JArr ys]) = Number (JArr ys)"
| "Number (JArr (x # y # zs)) = NaN"

text \<open>\<^verbatim>\<open>Number.isFinite(n)\<close> for a number \<open>n\<close>.\<close>

definition Number_isFinite :: "jsnum \<Rightarrow> bool" where
  "Number_isFinite n = (case n of Fin q \<Rightarrow> True | _ \<Rightarrow> False)"

text \<open>lodash's \<^verbatim>\<open>_.isFinite(v)\<close>: \<open>v\<close> is of type number and finite; no coercion.\<close>

definition lodash_isFinite :: "jsval \<Rightarrow> bool" where
  "lodash_isFinite v = (case v of JNum n \<Rightarrow> Number_isFinite n | _ \<Rightarrow> False)"

definition Math_trunc :: "rat \<Rightarrow> int" where
  "Math_trunc q = (if 0 \<le> q then \<lfloor>q\<rfloor> else \<lceil>q\<rceil>)"

definition Math_ceil :: "rat \<Rightarrow> int" where
  "Math_ceil q = \<lceil>q\<rceil>"

definition Math_floor :: "rat \<Rightarrow> int" where
  "Math_floor q = \<lfloor>q\<rfloor>"

section \<open>Configuration\<close>

text \<open>The configuration store: the configured paths with their values.
  \<^verbatim>\<open>config.get(path)\<close> is the configured value, or \<^verbatim>\<open>undefined\<close>.\<close>

type_synonym config = "(string \<times> jsval) list"

definition config_get :: "config \<Rightarrow> string \<Rightarrow> jsval" where
  "config_get cfg path = (case map_of cfg path of Some v \<Rightarrow> v | None \<Rightarrow> JUndefined)"


definition MINIMAL_POLLING_INTERVAL :: int where
  "MINIMAL_POLLING_INTERVAL = 15000"

definition MINIMAL_AUTHENTICATION_INTERVAL :: int where
  "MINIMAL_AUTHENTICATION_INTERVAL = 3600000"

definition APP_VERSION_REFRESH_INTERVAL :: int where
  "APP_VERSION_REFRESH_INTERVAL = 86400000"

definition DEFAULT_POLLING_MIN_MS :: int where
  "DEFAULT_POLLING_MIN_MS = 40000"

definition DEFAULT_POLLING_MAX_MS :: int where
  "DEFAULT_POLLING_MAX_MS = 120000"

text \<open>
  \<^verbatim>\<open>
  function getConfiguredInt(configPath, fallback) {
    const v = config.get(configPath);
    const n = Number(v);
    return Number.isFinite(n) ? Math.trunc(n) : fallback;
  }
  \<close>
\<close>

definition getConfiguredInt :: "config \<Rightarrow> string \<Rightarrow> int \<Rightarrow> int" where
  "getConfiguredInt cfg configPath fallback =
     (let v = config_get cfg configPath;
          n = Number v
      in case n of Fin q \<Rightarrow> Math_trunc q | _ \<Rightarrow> fallback)"

text \<open>
  \<^verbatim>\<open>
  function getConfiguredNumber(configPath) {
    const v = config.get(configPath);
    return _.isFinite(v) ? Number(v) : null;
  }
  \<close>
  The result \<^verbatim>\<open>null\<close> is \<open>None\<close>.
\<close>

definition getConfiguredNumber :: "config \<Rightarrow> string \<Rightarrow> rat option" where
  "getConfiguredNumber cfg configPath =
     (let v = config_get cfg configPath
      in if lodash_isFinite v then (case Number v of Fin q \<Rightarrow> Some q | _ \<Rightarrow> None)
         else None)"

text \<open>
  \<^verbatim>\<open>
  function getInterval(configPath, minimumIntervalInMs) {
    const configuredIntervalInMs = config.get(configPath);
    return _.isFinite(configuredIntervalInMs)
      ? Math.max(configuredIntervalInMs, minimumIntervalInMs)
      : minimumIntervalInMs;
  }
  \<close>
\<close>

definition getInterval :: "config \<Rightarrow> string \<Rightarrow> int \<Rightarrow> rat" where
  "getInterval cfg configPath minimumIntervalInMs =
     (case config_get cfg configPath of
        JNum (Fin q) \<Rightarrow> max q (of_int minimumIntervalInMs)
      | _ \<Rightarrow> of_int minimumIntervalInMs)"

section \<open>Interval policy\<close>

text \<open>
  \<^verbatim>\<open>
  function randomIntInclusive(min, max) {
    const minInt = Math.ceil(min);
    const maxInt = Math.floor(max);
    return Math.floor(Math.random() * (maxInt - minInt + 1)) + minInt;
  }
  \<close>
  The value drawn by \<^verbatim>\<open>Math.random()\<close>, a number \<open>r\<close> with \<open>0 \<le> r < 1\<close>, is a parameter.
\<close>

definition randomIntInclusive :: "rat \<Rightarrow> rat \<Rightarrow> rat \<Rightarrow> int" where
  "randomIntInclusive lo hi r =
     (let minInt = Math_ceil lo;
          maxInt = Math_floor hi
      in Math_floor (r * of_int (maxInt - minInt + 1)) + minInt)"

text \<open>The bounds of \<^verbatim>\<open>getRandomPollingIntervalInMs\<close> before the floor is applied
  (lines 218 to 236).\<close>

definition configuredBounds :: "config \<Rightarrow> rat \<times> rat" where
  "configuredBounds cfg =
     (let cfgMin = getConfiguredNumber cfg ''api.pollingIntervalMinInMs'';
          cfgMax = getConfiguredNumber cfg ''api.pollingIntervalMaxInMs'';
          legacyFixed = getConfiguredNumber cfg ''api.pollingIntervalInMs''
      in if cfgMin = None \<and> cfgMax = None then
           (case legacyFixed of
              Some l \<Rightarrow> (l, l)
            | None \<Rightarrow> (of_int DEFAULT_POLLING_MIN_MS, of_int DEFAULT_POLLING_MAX_MS))
         else
           (case cfgMin of Some m \<Rightarrow> m | None \<Rightarrow> of_int DEFAULT_POLLING_MIN_MS,
            case cfgMax of Some m \<Rightarrow> m | None \<Rightarrow> of_int DEFAULT_POLLING_MAX_MS))"

text \<open>The bounds after lines 238 and 239:
  \<^verbatim>\<open>minMs = Math.max(minMs, MINIMAL_POLLING_INTERVAL); maxMs = Math.max(maxMs, minMs);\<close>\<close>

definition effectiveBounds :: "config \<Rightarrow> rat \<times> rat" where
  "effectiveBounds cfg =
     (let (minMs0, maxMs0) = configuredBounds cfg;
          minMs = max minMs0 (of_int MINIMAL_POLLING_INTERVAL);
          maxMs = max maxMs0 minMs
      in (minMs, maxMs))"

definition getRandomPollingIntervalInMs :: "config \<Rightarrow> rat \<Rightarrow> int" where
  "getRandomPollingIntervalInMs cfg r =
     (let (minMs, maxMs) = effectiveBounds cfg
      in randomIntInclusive minMs maxMs r)"

section \<open>Poll loop\<close>

text \<open>
  The state of one loop, created by \<^verbatim>\<open>defer\<close> each time the loop is subscribed to:
  \<^verbatim>\<open>const state = { error403Timestamps: [], cooldownUntil: 0 };\<close>
\<close>

record backoff_state =
  error403Timestamps :: "int list"
  cooldownUntil :: int

definition freshState :: backoff_state where
  "freshState = \<lparr>error403Timestamps = [], cooldownUntil = 0\<rparr>"

text \<open>The three settings read when the loop is created (lines 61 to 63).\<close>

record loop_config =
  threshold :: int
  windowMs :: int
  cooldownMs :: int

definition loopConfig :: "config \<Rightarrow> loop_config" where
  "loopConfig cfg =
     \<lparr>threshold = getConfiguredInt cfg ''api.backoff403.threshold'' 3,
      windowMs = getConfiguredInt cfg ''api.backoff403.windowMs'' 300000,
      cooldownMs = getConfiguredInt cfg ''api.backoff403.cooldownMs'' 600000\<rparr>"

text \<open>A settled promise.\<close>

datatype settled = Resolved jsval | Rejected jsval

text \<open>The events of the loop: \<^verbatim>\<open>{ kind: "success", response }\<close> and
  \<^verbatim>\<open>{ kind: "error", err }\<close>.\<close>

datatype event = Success jsval | Error jsval

text \<open>
  \<^verbatim>\<open>
  from(listFavoriteBusinesses()).pipe(
    retry(2),
    map((response) => ({ kind: "success", response })),
    catchError((err) => of({ kind: "error", err })),
  )
  \<close>
  The promise is created once per call of \<^verbatim>\<open>runOnce$\<close>; the event is its outcome.
\<close>

definition runOnce :: "settled \<Rightarrow> event" where
  "runOnce p = (case p of Resolved response \<Rightarrow> Success response | Rejected err \<Rightarrow> Error err)"

text \<open>
  The tracker update of the \<^verbatim>\<open>expand\<close> callback (lines 86 to 110), with \<open>now\<close> the
  value of \<^verbatim>\<open>Date.now()\<close>:
  \<^verbatim>\<open>
  if (event.kind === "error" && isHttp403(event.err)) {
    state.error403Timestamps.push(now);
    state.error403Timestamps = state.error403Timestamps.filter((t) => now - t <= windowMs);
    if (state.error403Timestamps.length >= threshold) {
      state.cooldownUntil = Math.max(state.cooldownUntil, now + cooldownMs);
      state.error403Timestamps = [];
    }
  } else if (event.kind === "error") {
    logError(event.err);
  }
  \<close>
\<close>

definition track403 :: "loop_config \<Rightarrow> backoff_state \<Rightarrow> event \<Rightarrow> int \<Rightarrow> backoff_state" where
  "track403 lc state ev now =
     (case ev of
        Error err \<Rightarrow>
          if isHttp403 err then
            (let pushed = error403Timestamps state @ [now];
                 kept = filter (\<lambda>t. now - t \<le> windowMs lc) pushed
             in if threshold lc \<le> int (length kept)
                then state\<lparr>cooldownUntil := max (cooldownUntil state) (now + cooldownMs lc),
                           error403Timestamps := []\<rparr>
                else state\<lparr>error403Timestamps := kept\<rparr>)
          else state
      | Success response \<Rightarrow> state)"

text \<open>
  The delay calculation (lines 113 to 115), on the state the tracker update has left:
  \<^verbatim>\<open>
  const randomDelay = getRandomPollingIntervalInMs();
  const cooldownDelay = Math.max(0, state.cooldownUntil - now);
  const nextDelay = Math.max(randomDelay, cooldownDelay);
  \<close>
\<close>

definition nextDelay :: "config \<Rightarrow> backoff_state \<Rightarrow> int \<Rightarrow> rat \<Rightarrow> int" where
  "nextDelay cfg state now r =
     (let randomDelay = getRandomPollingIntervalInMs cfg r;
          cooldownDelay = max 0 (cooldownUntil state - now)
      in max randomDelay cooldownDelay)"

text \<open>The \<^verbatim>\<open>expand\<close> callback: the state it leaves and the delay of the timer it returns.\<close>

definition expandStep ::
  "config \<Rightarrow> loop_config \<Rightarrow> backoff_state \<Rightarrow> event \<Rightarrow> int \<Rightarrow> rat \<Rightarrow> backoff_state \<times> int" where
  "expandStep cfg lc state ev now r =
     (let state' = track403 lc state ev now
      in (state', nextDelay cfg state' now r))"

text \<open>lodash's \<^verbatim>\<open>_.get(object, key)\<close> for a single key.\<close>

definition lodash_get :: "jsval \<Rightarrow> string \<Rightarrow> jsval" where
  "lodash_get object key = (if nullish object then JUndefined else getProp object key)"

text \<open>
  What the operators after \<^verbatim>\<open>expand\<close> let through (lines 134 to 137):
  \<^verbatim>\<open>
  filter((event) => event.kind === "success"),
  map((event) => event.response),
  filter((response) => !!_.get(response, "items")),
  map((response) => response.items),
  \<close>
\<close>

definition emitted :: "event \<Rightarrow> jsval option" where
  "emitted ev =
     (case ev of
        Error err \<Rightarrow> None
      | Success response \<Rightarrow>
          if truthy (lodash_get response ''items'') then Some (getProp response ''items'')
          else None)"

text \<open>
  The earlier form of the poller (\<^verbatim>\<open>src/unnamed/part_000\<close>, lines 29 to 34) filters each
  fetch in the same way; there a rejected fetch is replaced by the \<^verbatim>\<open>null\<close> of
  \<^verbatim>\<open>logError\<close>:
  \<^verbatim>\<open>
  from(listFavoriteBusinesses()).pipe(
    retry(2),
    catchError(logError),
    filter((response) => !!_.get(response, "items")),
    map((response) => response.items),
  )
  \<close>
\<close>

definition legacyEmitted :: "settled \<Rightarrow> jsval option" where
  "legacyEmitted p =
     (let response = (case p of Resolved v \<Rightarrow> v | Rejected err \<Rightarrow> JNull)
      in if truthy (lodash_get response ''items'') then Some (getProp response ''items'')
         else None)"

text \<open>
  One cycle of the loop, as the loop sees it: the event of the fetch, the clock read by
  the callback and the number drawn by \<^verbatim>\<open>Math.random()\<close>.
\<close>

record cycle =
  c_event :: event
  c_now :: int
  c_rand :: rat

record cycle_result =
  state_after :: backoff_state
  delay :: int
  emission :: "jsval option"

text \<open>The loop never completes; \<open>pollLoop\<close> runs it over its first cycles. Every event
  goes through the \<^verbatim>\<open>expand\<close> callback, which schedules the next fetch, and through the
  operators after it.\<close>

fun pollLoop :: "config \<Rightarrow> loop_config \<Rightarrow> backoff_state \<Rightarrow> cycle list \<Rightarrow> cycle_result list" where
  "pollLoop cfg lc state [] = []"
| "pollLoop cfg lc state (c # cs) =
     (let (state', d) = expandStep cfg lc state (c_event c) (c_now c) (c_rand c)
      in \<lparr>state_after = state', delay = d, emission = emitted (c_event c)\<rparr>
           # pollLoop cfg lc state' cs)"


text \<open>The tracker state after a run of cycles.\<close>

fun trackAll :: "loop_config \<Rightarrow> backoff_state \<Rightarrow> cycle list \<Rightarrow> backoff_state" where
  "trackAll lc state [] = state"
| "trackAll lc state (c # cs) = trackAll lc (track403 lc state (c_event c) (c_now c)) cs"

text \<open>The cycle arms a cooldown: a 403 that brings the window to the threshold.\<close>

definition trips :: "loop_config \<Rightarrow> backoff_state \<Rightarrow> event \<Rightarrow> int \<Rightarrow> bool" where
  "trips lc state ev now =
     (case ev of
        Error err \<Rightarrow>
          isHttp403 err \<and>
          threshold lc
            \<le> int (length (filter (\<lambda>t. now - t \<le> windowMs lc) (error403Timestamps state @ [now])))
      | Success response \<Rightarrow> False)"

section \<open>The tracker as the specification words it\<close>

text \<open>
  The reference transition of the specification's section 4.2, written from its words:
  on a failure classified as HTTP 403, append \<open>now\<close>, prune the entries older than the
  window, and when the pruned count reaches the threshold set the cooldown to the maximum
  of its previous value and \<open>now + cooldownMs\<close> and clear the sequence; on any other
  failure and on success, change nothing.
\<close>

datatype outcome_class = Failure403 | FailureOther | Succeeded

definition classify :: "event \<Rightarrow> outcome_class" where
  "classify ev =
     (case ev of
        Success response \<Rightarrow> Succeeded
      | Error err \<Rightarrow> if isHttp403 err then Failure403 else FailureOther)"

definition olderThanWindow :: "int \<Rightarrow> int \<Rightarrow> int \<Rightarrow> bool" where
  "olderThanWindow w now t = (w < now - t)"

fun prune :: "int \<Rightarrow> int \<Rightarrow> int list \<Rightarrow> int list" where
  "prune w now [] = []"
| "prune w now (t # ts) = (if olderThanWindow w now t then prune w now ts else t # prune w now ts)"

definition spec_observe ::
  "loop_config \<Rightarrow> backoff_state \<Rightarrow> outcome_class \<Rightarrow> int \<Rightarrow> backoff_state" where
  "spec_observe lc s oc now =
     (case oc of
        Failure403 \<Rightarrow>
          (let pruned = prune (windowMs lc) now (error403Timestamps s @ [now])
           in if int (length pruned) \<ge> threshold lc
              then \<lparr>error403Timestamps = [],
                    cooldownUntil = max (cooldownUntil s) (now + cooldownMs lc)\<rparr>
              else \<lparr>error403Timestamps = pruned, cooldownUntil = cooldownUntil s\<rparr>)
      | FailureOther \<Rightarrow> s
      | Succeeded \<Rightarrow> s)"

text \<open>The states the reference tracker goes through when it observes each cycle of a
  run in turn.\<close>

fun spec_states :: "loop_config \<Rightarrow> backoff_state \<Rightarrow> cycle list \<Rightarrow> backoff_state list" where
  "spec_states lc s [] = []"
| "spec_states lc s (c # cs) =
     spec_observe lc s (classify (c_event c)) (c_now c)
       # spec_states lc (spec_observe lc s (classify (c_event c)) (c_now c)) cs"

section \<open>Orchestrator\<close>

text \<open>
  \<^verbatim>\<open>
  const poll$ = enabled$.pipe(
    switchMap((enabled) => (enabled ? pollLoopWith403Backoff$() : EMPTY)),
  );
  \<close>
  \<^verbatim>\<open>switchMap\<close> keeps at most one inner subscription: each value of \<^verbatim>\<open>enabled$\<close>
  unsubscribes from the current inner stream and subscribes to the new one. A new poll
  loop reads its settings, creates its own state through \<^verbatim>\<open>defer\<close> and calls
  \<^verbatim>\<open>runOnce$\<close> at once.

  Every subscription is a loop of its own. The orchestrator numbers the loops it starts;
  its state is that count and the active loop, if any, with its number. What reaches it
  is a value of \<^verbatim>\<open>enabled$\<close> or the fetch of some loop that settles. A fetch belongs to
  the loop that started it: it is received only while that very loop is the active one,
  and the fetch of a loop that has been unsubscribed is dropped.
\<close>

datatype signal = Enabled bool | Settled nat cycle

text \<open>What the orchestrator does in a step: a new loop fetches at once; a settled fetch
  of the active loop lets its items through, if any, and that loop schedules its next
  fetch after a delay.\<close>

datatype action = FetchNow nat | Emit jsval | FetchAfter nat int

record orchestrator =
  started :: nat
  active :: "(nat \<times> loop_config \<times> backoff_state) option"

definition orchInit :: orchestrator where
  "orchInit = \<lparr>started = 0, active = None\<rparr>"

text \<open>What one cycle of the loop numbered \<open>i\<close> does, from the result of the cycle.\<close>

definition cycleActions :: "nat \<Rightarrow> cycle_result \<Rightarrow> action list" where
  "cycleActions i res =
     (case emission res of None \<Rightarrow> [] | Some items \<Rightarrow> [Emit items]) @ [FetchAfter i (delay res)]"

fun orchStep :: "config \<Rightarrow> orchestrator \<Rightarrow> signal \<Rightarrow> orchestrator \<times> action list" where
  "orchStep cfg orch (Enabled enabled) =
     (if enabled
      then (\<lparr>started = Suc (started orch),
             active = Some (started orch, loopConfig cfg, freshState)\<rparr>,
            [FetchNow (started orch)])
      else (orch\<lparr>active := None\<rparr>, []))"
| "orchStep cfg orch (Settled i c) =
     (case active orch of
        None \<Rightarrow> (orch, [])
      | Some (k, lc, state) \<Rightarrow>
          if i = k then
            (let (state', d) = expandStep cfg lc state (c_event c) (c_now c) (c_rand c)
             in (orch\<lparr>active := Some (k, lc, state')\<rparr>,
                 cycleActions k
                   \<lparr>state_after = state', delay = d, emission = emitted (c_event c)\<rparr>))
          else (orch, []))"

fun orchRun :: "config \<Rightarrow> orchestrator \<Rightarrow> signal list \<Rightarrow> orchestrator \<times> action list" where
  "orchRun cfg orch [] = (orch, [])"
| "orchRun cfg orch (sg # sgs) =
     (let (orch', out) = orchStep cfg orch sg;
          (orch'', outs) = orchRun cfg orch' sgs
      in (orch'', out @ outs))"


section \<open>Periodic side effects\<close>

text \<open>
  \<^verbatim>\<open>
  function updateAppVersionByInterval$() {
    return timer(0, APP_VERSION_REFRESH_INTERVAL).pipe(mergeMap(updateAppVersion));
  }
  \<close>
  The timer fires at 0 and then after every period. \<^verbatim>\<open>mergeMap\<close> subscribes to the
  promise of each fire; a rejected promise is an error of the output stream, which ends
  the stream and unsubscribes from the timer. A run is given by the outcomes of the
  successive calls; its result is the list of the instants at which the operation is
  called and how the stream stands after them.
\<close>

datatype stream_status = Running | Errored jsval

fun timerMergeMap :: "int \<Rightarrow> int \<Rightarrow> settled list \<Rightarrow> int list \<times> stream_status" where
  "timerMergeMap period t [] = ([], Running)"
| "timerMergeMap period t (Resolved v # os) =
     (let (fires, status) = timerMergeMap period (t + period) os in (t # fires, status))"
| "timerMergeMap period t (Rejected err # os) = ([t], Errored err)"

definition updateAppVersionByInterval :: "settled list \<Rightarrow> int list \<times> stream_status" where
  "updateAppVersionByInterval outcomes = timerMergeMap APP_VERSION_REFRESH_INTERVAL 0 outcomes"

text \<open>
  \<^verbatim>\<open>
  return timer(0, authenticationIntervalInMs).pipe(
    mergeMap(() => from(login()).pipe(retry(2), catchError(logError))),
  );
  \<close>
  Here the inner stream catches the rejection: \<^verbatim>\<open>logError\<close> returns \<^verbatim>\<open>of(null)\<close>, the
  inner stream completes and the timer goes on.
\<close>

fun timerMergeMapCaught :: "rat \<Rightarrow> rat \<Rightarrow> settled list \<Rightarrow> rat list \<times> stream_status" where
  "timerMergeMapCaught period t [] = ([], Running)"
| "timerMergeMapCaught period t (p # os) =
     (let (fires, status) = timerMergeMapCaught period (t + period) os in (t # fires, status))"

definition authenticateByInterval :: "config \<Rightarrow> settled list \<Rightarrow> rat list \<times> stream_status" where
  "authenticateByInterval cfg outcomes =
     timerMergeMapCaught
       (getInterval cfg ''api.authenticationIntervalInMS'' MINIMAL_AUTHENTICATION_INTERVAL)
       0 outcomes"

section \<open>The tracker transition\<close>

lemma prune_filter: "prune w now ts = filter (\<lambda>t. now - t \<le> w) ts"
  by (induction ts) (auto simp: olderThanWindow_def)

lemma track403_spec_observe: "track403 lc s ev now = spec_observe lc s (classify ev) now"
  by (cases ev) (simp_all add: track403_def spec_observe_def classify_def prune_filter Let_def)

text \<open>
  C1: the tracker update that the \<^verbatim>\<open>expand\<close> callback performs in each cycle is the
  reference transition of section 4.2, for every prior state, every event and every
  instant \<open>now\<close>: on a failure classified as 403 it appends \<open>now\<close>, keeps the entries
  with \<open>now - t \<le> windowMs\<close> and, when their count reaches the threshold, sets the
  cooldown to the maximum of its previous value and \<open>now + cooldownMs\<close> and clears the
  sequence; on every other failure and on every success it changes nothing. So the states
  a loop goes through are those of the reference tracker.
\<close>

theorem track403_refines_spec_observe:
  "track403 lc s ev now = spec_observe lc s (classify ev) now
   \<and> fst (expandStep cfg lc s ev now r) = spec_observe lc s (classify ev) now
   \<and> map state_after (pollLoop cfg lc s cs) = spec_states lc s cs"
proof (intro conjI)
  show "track403 lc s ev now = spec_observe lc s (classify ev) now"
    by (rule track403_spec_observe)
  then show "fst (expandStep cfg lc s ev now r) = spec_observe lc s (classify ev) now"
    by (simp add: expandStep_def Let_def)
  show "map state_after (pollLoop cfg lc s cs) = spec_states lc s cs"
  proof (induction cs arbitrary: s)
    case Nil
    show ?case by simp
  next
    case (Cons c cs)
    have step: "track403 lc s (c_event c) (c_now c)
        = spec_observe lc s (classify (c_event c)) (c_now c)"
      by (rule track403_spec_observe)
    from Cons.IH [of "track403 lc s (c_event c) (c_now c)"] show ?case
      by (simp add: expandStep_def Let_def step)
  qed
qed

text \<open>The two examples of the specification: with threshold 3 and a window of 300000 ms,
  403s at 0, 200000 and 400000 do not arm a cooldown (the first is pruned before the third
  lands), and 403s at 0, 100000 and 200000 do.\<close>

lemma window_prunes_first_before_third:
  "trackAll \<lparr>threshold = 3, windowMs = 300000, cooldownMs = 600000\<rparr> freshState
     [\<lparr>c_event = Error (JObj [(''statusCode'', JNum (Fin 403))]), c_now = 0, c_rand = 0\<rparr>,
      \<lparr>c_event = Error (JObj [(''statusCode'', JNum (Fin 403))]), c_now = 200000, c_rand = 0\<rparr>,
      \<lparr>c_event = Error (JObj [(''statusCode'', JNum (Fin 403))]), c_now = 400000, c_rand = 0\<rparr>]
   = \<lparr>error403Timestamps = [200000, 400000], cooldownUntil = 0\<rparr>"
  by (simp add: track403_def freshState_def isHttp403_def statusCodeOf_def coalesce_def
      optChain_def nullish_def getProp_def)

lemma three_403_within_window_arm:
  "trackAll \<lparr>threshold = 3, windowMs = 300000, cooldownMs = 600000\<rparr> freshState
     [\<lparr>c_event = Error (JObj [(''statusCode'', JNum (Fin 403))]), c_now = 0, c_rand = 0\<rparr>,
      \<lparr>c_event = Error (JObj [(''statusCode'', JNum (Fin 403))]), c_now = 100000, c_rand = 0\<rparr>,
      \<lparr>c_event = Error (JObj [(''statusCode'', JNum (Fin 403))]), c_now = 200000, c_rand = 0\<rparr>]
   = \<lparr>error403Timestamps = [], cooldownUntil = 800000\<rparr>"
  by (simp add: track403_def freshState_def isHttp403_def statusCodeOf_def coalesce_def
      optChain_def nullish_def getProp_def)

section \<open>The cooldown never shrinks\<close>

lemma track403_cooldown_mono: "cooldownUntil s \<le> cooldownUntil (track403 lc s ev now)"
  by (cases ev) (simp_all add: track403_def Let_def)

lemma trackAll_cooldown_mono: "cooldownUntil s \<le> cooldownUntil (trackAll lc s cs)"
proof (induction cs arbitrary: s)
  case Nil
  show ?case by simp
next
  case (Cons c cs)
  have "cooldownUntil s \<le> cooldownUntil (track403 lc s (c_event c) (c_now c))"
    by (rule track403_cooldown_mono)
  also have "\<dots> \<le> cooldownUntil (trackAll lc (track403 lc s (c_event c) (c_now c)) cs)"
    by (rule Cons.IH)
  finally show ?case by simp
qed

lemma trackAll_append: "trackAll lc s (xs @ ys) = trackAll lc (trackAll lc s xs) ys"
  by (induction xs arbitrary: s) simp_all

text \<open>
  C9: within one loop, \<open>cooldownUntil\<close> never decreases: one observation leaves it at
  least as large as it was, and along any run of cycles the values before the run and
  after each cycle form a non-decreasing sequence.
\<close>

theorem cooldownUntil_monotone:
  "cooldownUntil s \<le> cooldownUntil (track403 lc s ev now)
   \<and> sorted (cooldownUntil s
        # map (\<lambda>res. cooldownUntil (state_after res)) (pollLoop cfg lc s cs))"
proof
  show "cooldownUntil s \<le> cooldownUntil (track403 lc s ev now)"
    by (rule track403_cooldown_mono)
  show "sorted (cooldownUntil s
        # map (\<lambda>res. cooldownUntil (state_after res)) (pollLoop cfg lc s cs))"
  proof (induction cs arbitrary: s)
    case Nil
    show ?case by simp
  next
    case (Cons c cs)
    let ?s' = "track403 lc s (c_event c) (c_now c)"
    have ih: "sorted (cooldownUntil ?s'
        # map (\<lambda>res. cooldownUntil (state_after res)) (pollLoop cfg lc ?s' cs))"
      by (rule Cons.IH)
    have le: "cooldownUntil s \<le> cooldownUntil ?s'" by (rule track403_cooldown_mono)
    from ih le show ?case
      by (auto simp: expandStep_def Let_def)
  qed
qed

section \<open>The scheduled delay\<close>

lemma pollLoop_length: "length (pollLoop cfg lc s cs) = length cs"
  by (induction cs arbitrary: s) (simp_all add: expandStep_def Let_def)

lemma pollLoop_nth:
  "j < length cs \<Longrightarrow>
   pollLoop cfg lc s cs ! j =
     \<lparr>state_after = trackAll lc s (take (Suc j) cs),
      delay = nextDelay cfg (trackAll lc s (take (Suc j) cs)) (c_now (cs ! j)) (c_rand (cs ! j)),
      emission = emitted (c_event (cs ! j))\<rparr>"
proof (induction cs arbitrary: s j)
  case Nil
  then show ?case by simp
next
  case (Cons c cs)
  show ?case
  proof (cases j)
    case 0
    then show ?thesis by (simp add: expandStep_def Let_def)
  next
    case (Suc k)
    with Cons.prems have "k < length cs" by simp
    from Cons.IH [OF this] Suc show ?thesis by (simp add: expandStep_def Let_def)
  qed
qed

lemma trips_arms:
  "trips lc s ev now \<Longrightarrow> now + cooldownMs lc \<le> cooldownUntil (track403 lc s ev now)"
  by (cases ev) (simp_all add: trips_def track403_def Let_def)

lemma nextDelay_ge_random: "getRandomPollingIntervalInMs cfg r \<le> nextDelay cfg s now r"
  by (simp add: nextDelay_def Let_def)

lemma nextDelay_ge_cooldown: "cooldownUntil s - now \<le> nextDelay cfg s now r"
  by (simp add: nextDelay_def Let_def)

lemma delay_eq:
  assumes "j < length cs"
  shows "delay (pollLoop cfg lc s cs ! j) =
           max (getRandomPollingIntervalInMs cfg (c_rand (cs ! j)))
               (max 0 (cooldownUntil (state_after (pollLoop cfg lc s cs ! j)) - c_now (cs ! j)))"
  by (simp add: pollLoop_nth [OF assms] nextDelay_def Let_def)

lemma delay_after_trip:
  assumes "i \<le> j" and "j < length cs"
    and "trips lc (trackAll lc s (take i cs)) (c_event (cs ! i)) (c_now (cs ! i))"
  shows "(c_now (cs ! i) + cooldownMs lc) - c_now (cs ! j) \<le> delay (pollLoop cfg lc s cs ! j)"
proof -
  let ?sj = "trackAll lc s (take (Suc j) cs)"
  let ?si = "trackAll lc s (take (Suc i) cs)"
  from assms have i: "i < length cs" by simp
  have res: "pollLoop cfg lc s cs ! j =
     \<lparr>state_after = ?sj, delay = nextDelay cfg ?sj (c_now (cs ! j)) (c_rand (cs ! j)),
      emission = emitted (c_event (cs ! j))\<rparr>"
    using assms(2) by (rule pollLoop_nth)
  have si: "?si = track403 lc (trackAll lc s (take i cs)) (c_event (cs ! i)) (c_now (cs ! i))"
    using i by (simp add: take_Suc_conv_app_nth trackAll_append)
  have armed: "c_now (cs ! i) + cooldownMs lc \<le> cooldownUntil ?si"
    unfolding si using assms(3) by (rule trips_arms)
  have split: "take (Suc j) cs = take (Suc i) cs @ drop (Suc i) (take (Suc j) cs)"
    using assms(1) by (metis Suc_le_mono append_take_drop_id min.absorb1 take_take)
  have "cooldownUntil ?si \<le> cooldownUntil (trackAll lc ?si (drop (Suc i) (take (Suc j) cs)))"
    by (rule trackAll_cooldown_mono)
  also have "trackAll lc ?si (drop (Suc i) (take (Suc j) cs)) = ?sj"
    using split trackAll_append [of lc s "take (Suc i) cs" "drop (Suc i) (take (Suc j) cs)"]
    by simp
  finally have "cooldownUntil ?si \<le> cooldownUntil ?sj" .
  with armed have "c_now (cs ! i) + cooldownMs lc \<le> cooldownUntil ?sj" by linarith
  moreover have "cooldownUntil ?sj - c_now (cs ! j)
      \<le> nextDelay cfg ?sj (c_now (cs ! j)) (c_rand (cs ! j))"
    by (rule nextDelay_ge_cooldown)
  ultimately show ?thesis by (simp add: res)
qed

text \<open>
  C2: in every cycle the delay before the next fetch is the maximum of the random
  interval drawn in that cycle and \<open>max 0 (cooldownUntil - now)\<close>, so it is never smaller
  than the random interval; and when cycle \<open>i\<close> of a loop arms a cooldown at its instant
  \<open>T\<close>, the delay of every cycle \<open>j\<close> from \<open>i\<close> on is at least
  \<open>(T + cooldownMs) - now\<close>, whatever the random interval is.
\<close>

theorem nextDelay_covers_cooldown:
  "snd (expandStep cfg lc s ev now r) =
     max (getRandomPollingIntervalInMs cfg r)
         (max 0 (cooldownUntil (fst (expandStep cfg lc s ev now r)) - now))
   \<and> (j < length cs \<longrightarrow>
        delay (pollLoop cfg lc s cs ! j) =
          max (getRandomPollingIntervalInMs cfg (c_rand (cs ! j)))
              (max 0 (cooldownUntil (state_after (pollLoop cfg lc s cs ! j)) - c_now (cs ! j)))
        \<and> getRandomPollingIntervalInMs cfg (c_rand (cs ! j)) \<le> delay (pollLoop cfg lc s cs ! j))
   \<and> (i \<le> j \<and> j < length cs
        \<and> trips lc (trackAll lc s (take i cs)) (c_event (cs ! i)) (c_now (cs ! i)) \<longrightarrow>
        (c_now (cs ! i) + cooldownMs lc) - c_now (cs ! j) \<le> delay (pollLoop cfg lc s cs ! j))"
proof (intro conjI impI)
  show "snd (expandStep cfg lc s ev now r) =
     max (getRandomPollingIntervalInMs cfg r)
         (max 0 (cooldownUntil (fst (expandStep cfg lc s ev now r)) - now))"
    by (simp add: expandStep_def nextDelay_def Let_def)
next
  assume j: "j < length cs"
  then show "delay (pollLoop cfg lc s cs ! j) =
          max (getRandomPollingIntervalInMs cfg (c_rand (cs ! j)))
              (max 0 (cooldownUntil (state_after (pollLoop cfg lc s cs ! j)) - c_now (cs ! j)))"
    by (rule delay_eq)
  from j show "getRandomPollingIntervalInMs cfg (c_rand (cs ! j)) \<le> delay (pollLoop cfg lc s cs ! j)"
    by (simp add: pollLoop_nth nextDelay_ge_random)
next
  assume "i \<le> j \<and> j < length cs
        \<and> trips lc (trackAll lc s (take i cs)) (c_event (cs ! i)) (c_now (cs ! i))"
  then show "(c_now (cs ! i) + cooldownMs lc) - c_now (cs ! j) \<le> delay (pollLoop cfg lc s cs ! j)"
    by (simp add: delay_after_trip)
qed

theorem nextDelay_covers_cooldown_witness:
  "551000 \<le> delay (pollLoop [] \<lparr>threshold = 1, windowMs = 300000, cooldownMs = 600000\<rparr> freshState
      [\<lparr>c_event = Error (JObj [(''statusCode'', JNum (Fin 403))]), c_now = 1000, c_rand = 0\<rparr>,
       \<lparr>c_event = Success (JObj []), c_now = 50000, c_rand = 0\<rparr>] ! 1)"
proof -
  let ?lc = "\<lparr>threshold = 1, windowMs = 300000, cooldownMs = 600000\<rparr>"
  let ?cs = "[\<lparr>c_event = Error (JObj [(''statusCode'', JNum (Fin 403))]), c_now = 1000, c_rand = 0\<rparr>,
       \<lparr>c_event = Success (JObj []), c_now = 50000, c_rand = 0\<rparr>]"
  have h: "(0::nat) \<le> 1 \<and> 1 < length ?cs
      \<and> trips ?lc (trackAll ?lc freshState (take 0 ?cs)) (c_event (?cs ! 0)) (c_now (?cs ! 0))"
    by (simp add: trips_def freshState_def isHttp403_def statusCodeOf_def coalesce_def
        optChain_def nullish_def getProp_def)
  from nextDelay_covers_cooldown [of "[]" ?lc freshState _ _ _ 1 ?cs 0] h
  have "(c_now (?cs ! 0) + cooldownMs ?lc) - c_now (?cs ! 1)
      \<le> delay (pollLoop [] ?lc freshState ?cs ! 1)"
    by blast
  then show ?thesis by simp
qed

section \<open>The HTTP-403 classification\<close>

text \<open>
  C6, as stated: the classification succeeds if and only if at least one of the four
  locations holds 403. This fails: an error whose \<^verbatim>\<open>response.statusCode\<close> is 500 and whose
  own \<^verbatim>\<open>status\<close> is 403 holds 403 in one location and is not classified as 403, because
  the earlier location wins.
\<close>

theorem isHttp403_any_location_counterexample:
  "JNum (Fin 403) \<in> set (statusLocations
       (JObj [(''response'', JObj [(''statusCode'', JNum (Fin 500))]),
              (''status'', JNum (Fin 403))]))
   \<and> \<not> isHttp403
       (JObj [(''response'', JObj [(''statusCode'', JNum (Fin 500))]),
              (''status'', JNum (Fin 403))])"
  by (simp add: statusLocations_def isHttp403_def statusCodeOf_def coalesce_def
      optChain_def nullish_def getProp_def)

text \<open>
  C6, amended: the classification succeeds if and only if the first of the four locations
  (\<^verbatim>\<open>error.response.statusCode\<close>, \<^verbatim>\<open>error.response.status\<close>, \<^verbatim>\<open>error.statusCode\<close>,
  \<^verbatim>\<open>error.status\<close>, in this order) that holds a value other than \<^verbatim>\<open>null\<close> and
  \<^verbatim>\<open>undefined\<close> holds the number 403. So a classified error holds 403 in at least one
  location, but not conversely.
\<close>

theorem isHttp403_first_location:
  "isHttp403 error = (firstNonNullish (statusLocations error) = Some (JNum (Fin 403)))
   \<and> (isHttp403 error \<longrightarrow> JNum (Fin 403) \<in> set (statusLocations error))"
  by (auto simp: isHttp403_def statusLocations_def statusCodeOf_def coalesce_def nullish_def
      split: if_splits)

theorem isHttp403_first_location_witness:
  "isHttp403 (JObj [(''response'', JObj [(''status'', JNum (Fin 403))])])
   \<and> firstNonNullish (statusLocations
        (JObj [(''response'', JObj [(''status'', JNum (Fin 403))])])) = Some (JNum (Fin 403))
   \<and> JNum (Fin 403) \<in> set (statusLocations
        (JObj [(''response'', JObj [(''status'', JNum (Fin 403))])]))"
proof -
  have h: "isHttp403 (JObj [(''response'', JObj [(''status'', JNum (Fin 403))])])"
    by (simp add: isHttp403_def statusCodeOf_def coalesce_def optChain_def nullish_def
        getProp_def)
  from h isHttp403_first_location
    [of "JObj [(''response'', JObj [(''status'', JNum (Fin 403))])]"]
  show ?thesis by blast
qed

section \<open>The interval policy\<close>

lemma floor_rat_numeral: "\<lfloor>numeral a / numeral b :: rat\<rfloor> = numeral a div numeral b"
  by (metis floor_divide_of_int_eq of_int_numeral)

lemma ceiling_rat_numeral:
  "\<lceil>numeral a / numeral b :: rat\<rceil> = - (- numeral a div numeral b)"
  by (metis ceiling_def floor_divide_of_int_eq minus_divide_left of_int_minus of_int_numeral)

lemmas interval_eval = getConfiguredNumber_def config_get_def lodash_isFinite_def
  Number_isFinite_def getRandomPollingIntervalInMs_def effectiveBounds_def configuredBounds_def
  randomIntInclusive_def Math_ceil_def Math_floor_def MINIMAL_POLLING_INTERVAL_def
  DEFAULT_POLLING_MIN_MS_def DEFAULT_POLLING_MAX_MS_def Let_def floor_rat_numeral
  ceiling_rat_numeral

lemma floor_random_bounds:
  fixes r :: rat and n :: int
  assumes "0 \<le> r" and "r < 1" and "1 \<le> n"
  shows "0 \<le> \<lfloor>r * of_int n\<rfloor> \<and> \<lfloor>r * of_int n\<rfloor> < n"
proof
  from assms have "0 \<le> r * of_int n" by simp
  then show "0 \<le> \<lfloor>r * of_int n\<rfloor>" by simp
  from assms have "r * of_int n < 1 * of_int n"
    by (intro mult_strict_right_mono) simp_all
  then show "\<lfloor>r * of_int n\<rfloor> < n" by (simp add: floor_less_iff)
qed

text \<open>When an integer lies between the bounds, the draw lies between the bounds.\<close>

lemma randomIntInclusive_range:
  assumes "0 \<le> r" and "r < 1" and "\<lceil>lo\<rceil> \<le> \<lfloor>hi\<rfloor>"
  shows "\<lceil>lo\<rceil> \<le> randomIntInclusive lo hi r \<and> randomIntInclusive lo hi r \<le> \<lfloor>hi\<rfloor>"
proof -
  from assms(3) have n: "1 \<le> \<lfloor>hi\<rfloor> - \<lceil>lo\<rceil> + 1" by simp
  from floor_random_bounds [OF assms(1,2) n]
  show ?thesis by (simp add: randomIntInclusive_def Math_ceil_def Math_floor_def Let_def)
qed

text \<open>When no integer lies between the bounds, the draw is the lower bound rounded up.\<close>

lemma randomIntInclusive_no_integer:
  assumes "\<lfloor>hi\<rfloor> - \<lceil>lo\<rceil> + 1 = 0"
  shows "randomIntInclusive lo hi r = \<lceil>lo\<rceil>"
proof -
  have "randomIntInclusive lo hi r = \<lfloor>r * of_int (\<lfloor>hi\<rfloor> - \<lceil>lo\<rceil> + 1)\<rfloor> + \<lceil>lo\<rceil>"
    by (simp only: randomIntInclusive_def Math_ceil_def Math_floor_def Let_def)
  also have "\<dots> = \<lceil>lo\<rceil>" by (simp only: assms) simp
  finally show ?thesis .
qed

lemma randomIntInclusive_fixed:
  assumes "0 \<le> r" and "r < 1"
  shows "randomIntInclusive l l r = \<lceil>l\<rceil>"
proof (cases "\<lceil>l\<rceil> \<le> \<lfloor>l\<rfloor>")
  case True
  from randomIntInclusive_range [OF assms True]
  have "\<lceil>l\<rceil> \<le> randomIntInclusive l l r" and "randomIntInclusive l l r \<le> \<lfloor>l\<rfloor>"
    by simp_all
  moreover have "\<lfloor>l\<rfloor> \<le> \<lceil>l\<rceil>" by (rule floor_le_ceiling)
  ultimately show ?thesis by linarith
next
  case False
  moreover have "\<lceil>l\<rceil> - \<lfloor>l\<rfloor> \<le> 1" by (rule ceiling_diff_floor_le_1)
  ultimately have "\<lfloor>l\<rfloor> - \<lceil>l\<rceil> + 1 = 0" by linarith
  then show ?thesis by (rule randomIntInclusive_no_integer)
qed

lemma effectiveBounds_eq:
  "effectiveBounds cfg =
     (max (fst (configuredBounds cfg)) 15000,
      max (snd (configuredBounds cfg)) (max (fst (configuredBounds cfg)) 15000))"
  by (simp add: effectiveBounds_def MINIMAL_POLLING_INTERVAL_def Let_def split: prod.splits)

lemma getRandom_eq:
  "getRandomPollingIntervalInMs cfg r =
     randomIntInclusive (fst (effectiveBounds cfg)) (snd (effectiveBounds cfg)) r"
  by (simp add: getRandomPollingIntervalInMs_def split: prod.splits)

lemma configuredBounds_both:
  "getConfiguredNumber cfg ''api.pollingIntervalMinInMs'' = Some lo \<Longrightarrow>
   getConfiguredNumber cfg ''api.pollingIntervalMaxInMs'' = Some hi \<Longrightarrow>
   configuredBounds cfg = (lo, hi)"
  by (simp add: configuredBounds_def Let_def)

lemma configuredBounds_legacy:
  "getConfiguredNumber cfg ''api.pollingIntervalMinInMs'' = None \<Longrightarrow>
   getConfiguredNumber cfg ''api.pollingIntervalMaxInMs'' = None \<Longrightarrow>
   getConfiguredNumber cfg ''api.pollingIntervalInMs'' = Some l \<Longrightarrow>
   configuredBounds cfg = (l, l)"
  by (simp add: configuredBounds_def Let_def)

text \<open>
  C7, as stated: for all configured \<open>min \<le> max\<close> with \<open>min \<ge> 15000\<close> the interval is
  an integer in \<open>[min, max]\<close>. This fails where no integer lies in \<open>[min, max]\<close>: with
  min = 15000.25 and max = 15000.5 the interval is 15001, above the maximum.
\<close>

theorem nextInterval_fractional_bounds_counterexample:
  "getConfiguredNumber
       [(''api.pollingIntervalMinInMs'', JNum (Fin (60001 / 4))),
        (''api.pollingIntervalMaxInMs'', JNum (Fin (30001 / 2)))]
       ''api.pollingIntervalMinInMs'' = Some (60001 / 4)
   \<and> getConfiguredNumber
       [(''api.pollingIntervalMinInMs'', JNum (Fin (60001 / 4))),
        (''api.pollingIntervalMaxInMs'', JNum (Fin (30001 / 2)))]
       ''api.pollingIntervalMaxInMs'' = Some (30001 / 2)
   \<and> (60001 / 4 :: rat) \<le> 30001 / 2 \<and> (15000 :: rat) \<le> 60001 / 4
   \<and> (0 :: rat) \<le> 1 / 2 \<and> (1 / 2 :: rat) < 1
   \<and> getRandomPollingIntervalInMs
       [(''api.pollingIntervalMinInMs'', JNum (Fin (60001 / 4))),
        (''api.pollingIntervalMaxInMs'', JNum (Fin (30001 / 2)))] (1 / 2) = 15001
   \<and> \<not> of_int (getRandomPollingIntervalInMs
       [(''api.pollingIntervalMinInMs'', JNum (Fin (60001 / 4))),
        (''api.pollingIntervalMaxInMs'', JNum (Fin (30001 / 2)))] (1 / 2)) \<le> (30001 / 2 :: rat)"
  by (simp add: interval_eval)

text \<open>
  C7, amended: for every draw \<open>r\<close> of the randomness source (\<open>0 \<le> r < 1\<close>) and all
  configured \<open>min \<le> max\<close> with \<open>min \<ge> 15000\<close> such that some integer lies in
  \<open>[min, max]\<close> (that is, \<open>\<lceil>min\<rceil> \<le> \<lfloor>max\<rfloor>\<close>, as whenever both are integers), the interval
  is an integer in \<open>[min, max]\<close>; and for every configuration the bounds are first clamped
  as \<open>min' = max min 15000\<close> and then \<open>max' = max max min'\<close> before the draw, so that
  configured min = 5000 and max = 10000 give the fixed value 15000.
\<close>

theorem nextInterval_in_range:
  assumes "0 \<le> r" and "r < 1"
  shows "effectiveBounds cfg =
           (max (fst (configuredBounds cfg)) 15000,
            max (snd (configuredBounds cfg)) (max (fst (configuredBounds cfg)) 15000))
       \<and> getRandomPollingIntervalInMs cfg r =
           randomIntInclusive (fst (effectiveBounds cfg)) (snd (effectiveBounds cfg)) r
       \<and> (getConfiguredNumber cfg ''api.pollingIntervalMinInMs'' = Some lo
           \<and> getConfiguredNumber cfg ''api.pollingIntervalMaxInMs'' = Some hi
           \<and> lo \<le> hi \<and> 15000 \<le> lo \<and> \<lceil>lo\<rceil> \<le> \<lfloor>hi\<rfloor>
          \<longrightarrow> lo \<le> of_int (getRandomPollingIntervalInMs cfg r)
              \<and> of_int (getRandomPollingIntervalInMs cfg r) \<le> hi)
       \<and> (getConfiguredNumber cfg ''api.pollingIntervalMinInMs'' = Some 5000
           \<and> getConfiguredNumber cfg ''api.pollingIntervalMaxInMs'' = Some 10000
          \<longrightarrow> effectiveBounds cfg = (15000, 15000)
              \<and> getRandomPollingIntervalInMs cfg r = 15000)"
proof (intro conjI impI)
  show "effectiveBounds cfg =
           (max (fst (configuredBounds cfg)) 15000,
            max (snd (configuredBounds cfg)) (max (fst (configuredBounds cfg)) 15000))"
    by (rule effectiveBounds_eq)
  show g: "getRandomPollingIntervalInMs cfg r =
           randomIntInclusive (fst (effectiveBounds cfg)) (snd (effectiveBounds cfg)) r"
    by (rule getRandom_eq)
  {
    assume h: "getConfiguredNumber cfg ''api.pollingIntervalMinInMs'' = Some lo
           \<and> getConfiguredNumber cfg ''api.pollingIntervalMaxInMs'' = Some hi
           \<and> lo \<le> hi \<and> 15000 \<le> lo \<and> \<lceil>lo\<rceil> \<le> \<lfloor>hi\<rfloor>"
    then have cb: "configuredBounds cfg = (lo, hi)" by (simp add: configuredBounds_both)
    from h have eb: "effectiveBounds cfg = (lo, hi)"
      by (simp add: effectiveBounds_eq cb max_def)
    from h have "\<lceil>lo\<rceil> \<le> \<lfloor>hi\<rfloor>" by simp
    from randomIntInclusive_range [OF assms this]
    have rg: "\<lceil>lo\<rceil> \<le> getRandomPollingIntervalInMs cfg r"
             "getRandomPollingIntervalInMs cfg r \<le> \<lfloor>hi\<rfloor>"
      by (simp_all add: g eb)
    from rg(1) show "lo \<le> of_int (getRandomPollingIntervalInMs cfg r)"
      by (simp add: ceiling_le_iff)
    from rg(2) show "of_int (getRandomPollingIntervalInMs cfg r) \<le> hi"
      by (simp add: le_floor_iff)
  }
  {
    assume h: "getConfiguredNumber cfg ''api.pollingIntervalMinInMs'' = Some 5000
           \<and> getConfiguredNumber cfg ''api.pollingIntervalMaxInMs'' = Some 10000"
    then have cb: "configuredBounds cfg = (5000, 10000)" by (simp add: configuredBounds_both)
    show eb: "effectiveBounds cfg = (15000, 15000)"
      by (simp add: effectiveBounds_eq cb)
    have "\<lceil>15000::rat\<rceil> \<le> \<lfloor>15000::rat\<rfloor>" by simp
    from randomIntInclusive_range [OF assms this]
    show "getRandomPollingIntervalInMs cfg r = 15000"
      by (simp add: g eb)
  }
qed

theorem nextInterval_in_range_witness:
  "(20000 :: rat) \<le> of_int (getRandomPollingIntervalInMs
       [(''api.pollingIntervalMinInMs'', JNum (Fin 20000)),
        (''api.pollingIntervalMaxInMs'', JNum (Fin 30000))] (1 / 2))
   \<and> of_int (getRandomPollingIntervalInMs
       [(''api.pollingIntervalMinInMs'', JNum (Fin 20000)),
        (''api.pollingIntervalMaxInMs'', JNum (Fin 30000))] (1 / 2)) \<le> (30000 :: rat)
   \<and> getRandomPollingIntervalInMs
       [(''api.pollingIntervalMinInMs'', JNum (Fin 5000)),
        (''api.pollingIntervalMaxInMs'', JNum (Fin 10000))] (1 / 2) = 15000"
proof -
  let ?c1 = "[(''api.pollingIntervalMinInMs'', JNum (Fin 20000)),
              (''api.pollingIntervalMaxInMs'', JNum (Fin 30000))]"
  let ?c2 = "[(''api.pollingIntervalMinInMs'', JNum (Fin 5000)),
              (''api.pollingIntervalMaxInMs'', JNum (Fin 10000))]"
  have r: "(0::rat) \<le> 1 / 2" "(1 / 2 :: rat) < 1" by simp_all
  have h1: "getConfiguredNumber ?c1 ''api.pollingIntervalMinInMs'' = Some 20000
        \<and> getConfiguredNumber ?c1 ''api.pollingIntervalMaxInMs'' = Some 30000
        \<and> (20000::rat) \<le> 30000 \<and> (15000::rat) \<le> 20000 \<and> \<lceil>20000::rat\<rceil> \<le> \<lfloor>30000::rat\<rfloor>"
    by (simp add: getConfiguredNumber_def config_get_def lodash_isFinite_def Number_isFinite_def)
  have h2: "getConfiguredNumber ?c2 ''api.pollingIntervalMinInMs'' = Some 5000
        \<and> getConfiguredNumber ?c2 ''api.pollingIntervalMaxInMs'' = Some 10000"
    by (simp add: getConfiguredNumber_def config_get_def lodash_isFinite_def Number_isFinite_def)
  from nextInterval_in_range [OF r, of ?c1 20000 30000] h1
  have "(20000 :: rat) \<le> of_int (getRandomPollingIntervalInMs ?c1 (1 / 2))
        \<and> of_int (getRandomPollingIntervalInMs ?c1 (1 / 2)) \<le> (30000 :: rat)"
    by blast
  moreover from nextInterval_in_range [OF r, of ?c2] h2
  have "getRandomPollingIntervalInMs ?c2 (1 / 2) = 15000" by blast
  ultimately show ?thesis by blast
qed

text \<open>
  C8, as stated: with neither bound set and a legacy fixed interval of at least 15000,
  the interval is exactly the legacy value. This fails for a legacy value that is not an
  integer: with 60000.5 the interval is 60001.
\<close>

theorem legacy_fractional_counterexample:
  "getConfiguredNumber [(''api.pollingIntervalInMs'', JNum (Fin (120001 / 2)))]
       ''api.pollingIntervalMinInMs'' = None
   \<and> getConfiguredNumber [(''api.pollingIntervalInMs'', JNum (Fin (120001 / 2)))]
       ''api.pollingIntervalMaxInMs'' = None
   \<and> getConfiguredNumber [(''api.pollingIntervalInMs'', JNum (Fin (120001 / 2)))]
       ''api.pollingIntervalInMs'' = Some (120001 / 2)
   \<and> (15000 :: rat) \<le> 120001 / 2
   \<and> getRandomPollingIntervalInMs [(''api.pollingIntervalInMs'', JNum (Fin (120001 / 2)))] 0
       = 60001
   \<and> of_int (getRandomPollingIntervalInMs
         [(''api.pollingIntervalInMs'', JNum (Fin (120001 / 2)))] 0) \<noteq> (120001 / 2 :: rat)"
  by (simp add: interval_eval)

text \<open>
  C8, amended: with neither bound set and a legacy fixed interval \<open>l \<ge> 15000\<close>, the
  interval is \<open>l\<close> rounded up to an integer, for every draw \<open>r\<close> of the randomness
  source (\<open>0 \<le> r < 1\<close>); so it is exactly the legacy value whenever that value is an
  integer.
\<close>

theorem legacy_fixed_interval:
  assumes "0 \<le> r" and "r < 1"
    and "getConfiguredNumber cfg ''api.pollingIntervalMinInMs'' = None"
    and "getConfiguredNumber cfg ''api.pollingIntervalMaxInMs'' = None"
    and "getConfiguredNumber cfg ''api.pollingIntervalInMs'' = Some l"
    and "15000 \<le> l"
  shows "getRandomPollingIntervalInMs cfg r = \<lceil>l\<rceil>
         \<and> (l \<in> \<int> \<longrightarrow> of_int (getRandomPollingIntervalInMs cfg r) = l)"
proof -
  from assms(3-5) have cb: "configuredBounds cfg = (l, l)" by (rule configuredBounds_legacy)
  from assms(6) have eb: "effectiveBounds cfg = (l, l)"
    by (simp add: effectiveBounds_eq cb max_def)
  have res: "getRandomPollingIntervalInMs cfg r = \<lceil>l\<rceil>"
    by (simp add: getRandom_eq eb randomIntInclusive_fixed [OF assms(1,2)])
  moreover have "l \<in> \<int> \<longrightarrow> of_int \<lceil>l\<rceil> = l" by (auto elim: Ints_cases)
  ultimately show ?thesis by simp
qed

theorem legacy_fixed_interval_witness:
  "getRandomPollingIntervalInMs [(''api.pollingIntervalInMs'', JNum (Fin 60000))] (1 / 2) = 60000
   \<and> of_int (getRandomPollingIntervalInMs [(''api.pollingIntervalInMs'', JNum (Fin 60000))] (1 / 2))
       = (60000 :: rat)"
proof -
  let ?cfg = "[(''api.pollingIntervalInMs'', JNum (Fin 60000))]"
  have a: "getConfiguredNumber ?cfg ''api.pollingIntervalMinInMs'' = None"
    and b: "getConfiguredNumber ?cfg ''api.pollingIntervalMaxInMs'' = None"
    and c: "getConfiguredNumber ?cfg ''api.pollingIntervalInMs'' = Some 60000"
    by (simp_all add: getConfiguredNumber_def config_get_def lodash_isFinite_def
        Number_isFinite_def)
  have r: "(0::rat) \<le> 1 / 2" "(1 / 2 :: rat) < 1" and l: "(15000::rat) \<le> 60000" by simp_all
  have i: "(60000 :: rat) \<in> \<int>" by simp
  from legacy_fixed_interval [OF r a b c l] i show ?thesis by simp
qed

section \<open>What the loop emits\<close>

lemma pollLoop_emissions:
  "map emission (pollLoop cfg lc s cs) = map (\<lambda>c. emitted (c_event c)) cs"
  by (induction cs arbitrary: s) (simp_all add: expandStep_def Let_def)

text \<open>
  C4, as stated: a successful response with an empty \<^verbatim>\<open>items\<close> produces no emission.
  This fails: the filter tests \<^verbatim>\<open>!!_.get(response, "items")\<close>, an empty array is truthy,
  and the response \<^verbatim>\<open>{ items: [] }\<close> is emitted as the empty batch.
\<close>

theorem emission_empty_items_counterexample:
  "emitted (Success (JObj [(''items'', JArr [])])) = Some (JArr [])
   \<and> emitted (Success (JObj [(''items'', JArr [])])) \<noteq> None"
  by (simp add: emitted_def lodash_get_def nullish_def getProp_def)

text \<open>
  C4, amended: a cycle emits if and only if its outcome is a success whose response
  carries a truthy \<^verbatim>\<open>items\<close> field (any value but \<^verbatim>\<open>undefined\<close>, \<^verbatim>\<open>null\<close>, \<^verbatim>\<open>false\<close>,
  0, \<^verbatim>\<open>NaN\<close> and the empty string), and the emitted value is exactly that field; an
  array is truthy also when empty, so an empty \<^verbatim>\<open>items\<close> array is emitted. Every other
  cycle (any failure, any response without \<^verbatim>\<open>items\<close> or with a falsy one) emits
  nothing, and every cycle, emitting or not, goes through the callback that schedules
  the next one. The earlier form of the poller lets through exactly the same fetches.
\<close>

theorem emission_iff_truthy_items:
  "(emitted ev = Some v) =
     (\<exists>response. ev = Success response \<and> truthy (lodash_get response ''items'')
        \<and> v = getProp response ''items'')
   \<and> emitted (Error err) = None
   \<and> (\<not> truthy (lodash_get response ''items'') \<longrightarrow> emitted (Success response) = None)
   \<and> emitted (Success (JObj [(''items'', JArr xs)])) = Some (JArr xs)
   \<and> legacyEmitted p = emitted (runOnce p)
   \<and> length (pollLoop cfg lc s cs) = length cs
   \<and> map emission (pollLoop cfg lc s cs) = map (\<lambda>c. emitted (c_event c)) cs"
proof (intro conjI)
  show "legacyEmitted p = emitted (runOnce p)"
    by (cases p) (simp_all add: legacyEmitted_def emitted_def runOnce_def lodash_get_def
        nullish_def)
  show "(emitted ev = Some v) =
     (\<exists>response. ev = Success response \<and> truthy (lodash_get response ''items'')
        \<and> v = getProp response ''items'')"
    by (cases ev) (auto simp: emitted_def)
  show "emitted (Error err) = None" by (simp add: emitted_def)
  show "\<not> truthy (lodash_get response ''items'') \<longrightarrow> emitted (Success response) = None"
    by (simp add: emitted_def)
  show "emitted (Success (JObj [(''items'', JArr xs)])) = Some (JArr xs)"
    by (simp add: emitted_def lodash_get_def nullish_def getProp_def)
  show "length (pollLoop cfg lc s cs) = length cs" by (rule pollLoop_length)
  show "map emission (pollLoop cfg lc s cs) = map (\<lambda>c. emitted (c_event c)) cs"
    by (rule pollLoop_emissions)
qed

theorem emission_iff_truthy_items_witness:
  "emitted (Success (JObj [(''items'', JArr [JStr (ascii ''bag'')])])) = Some (JArr [JStr (ascii ''bag'')])
   \<and> emitted (Success (JObj [(''message'', JStr (ascii ''none''))])) = None"
proof -
  have h: "\<not> truthy (lodash_get (JObj [(''message'', JStr (ascii ''none''))]) ''items'')"
    by (simp add: lodash_get_def nullish_def getProp_def)
  from emission_iff_truthy_items
    [of "Success (JObj [(''items'', JArr [JStr (ascii ''bag'')])])" "JArr [JStr (ascii ''bag'')]" JNull
        "JObj [(''message'', JStr (ascii ''none''))]" "[JStr (ascii ''bag'')]" "Rejected JNull"] h
  show ?thesis by blast
qed

section \<open>The enable signal\<close>








text \<open>An on-period that arms a cooldown, then off and on again, then a late 403 of the
  first loop: the second loop is fresh and stays so.\<close>

lemma toggling_resets_backoff:
  "fst (orchRun [(''api.backoff403.threshold'', JNum (Fin 1))] orchInit
     [Enabled True,
      Settled 0 \<lparr>c_event = Error (JObj [(''statusCode'', JNum (Fin 403))]), c_now = 1000,
                c_rand = 0\<rparr>])
    = \<lparr>started = 1,
       active = Some (0, \<lparr>threshold = 1, windowMs = 300000, cooldownMs = 600000\<rparr>,
                      \<lparr>error403Timestamps = [], cooldownUntil = 601000\<rparr>)\<rparr>
   \<and> fst (orchRun [(''api.backoff403.threshold'', JNum (Fin 1))] orchInit
     [Enabled True,
      Settled 0 \<lparr>c_event = Error (JObj [(''statusCode'', JNum (Fin 403))]), c_now = 1000,
                c_rand = 0\<rparr>,
      Enabled False, Enabled True,
      Settled 0 \<lparr>c_event = Error (JObj [(''statusCode'', JNum (Fin 403))]), c_now = 2000,
                c_rand = 0\<rparr>])
    = \<lparr>started = 2,
       active = Some (1, \<lparr>threshold = 1, windowMs = 300000, cooldownMs = 600000\<rparr>,
                      \<lparr>error403Timestamps = [], cooldownUntil = 0\<rparr>)\<rparr>"
  by (simp add: orchInit_def loopConfig_def getConfiguredInt_def config_get_def Math_trunc_def
      freshState_def expandStep_def track403_def isHttp403_def statusCodeOf_def coalesce_def
      optChain_def nullish_def getProp_def Let_def split_beta)

section \<open>The version-refresh timer\<close>

lemma timerMergeMapCaught_survives:
  "snd (timerMergeMapCaught period t outcomes) = Running
   \<and> length (fst (timerMergeMapCaught period t outcomes)) = length outcomes"
  by (induction outcomes arbitrary: t) (simp_all add: split_beta)

lemma timerMergeMap_stops:
  "timerMergeMap period t (Rejected err # outcomes) = ([t], Errored err)"
  by simp

text \<open>
  C3: the version-refresh timer fires at 0 and then every 86400000 ms while the operation
  succeeds. The claim that it keeps firing after any failure of the operation does not
  hold of the code: the stream of \<^verbatim>\<open>updateAppVersionByInterval$\<close> has no \<^verbatim>\<open>catchError\<close>,
  so when the first call is rejected the stream ends with that error and the operation
  is never called again, although two more outcomes were due. The authentication timer
  beside it catches the rejection and goes on.
\<close>

theorem updateAppVersion_rejection_ends_timer:
  "updateAppVersionByInterval [Resolved JUndefined, Resolved JUndefined, Resolved JUndefined]
     = ([0, 86400000, 172800000], Running)
   \<and> updateAppVersionByInterval
       [Rejected (JStr (ascii ''ETIMEDOUT'')), Resolved JUndefined, Resolved JUndefined]
     = ([0], Errored (JStr (ascii ''ETIMEDOUT'')))
   \<and> authenticateByInterval []
       [Rejected (JStr (ascii ''ETIMEDOUT'')), Resolved JUndefined, Resolved JUndefined]
     = ([0, 3600000, 7200000], Running)"
  by (simp add: updateAppVersionByInterval_def APP_VERSION_REFRESH_INTERVAL_def
      authenticateByInterval_def getInterval_def config_get_def
      MINIMAL_AUTHENTICATION_INTERVAL_def)

section \<open>Reading the configuration\<close>

lemmas parse_eval = StringToNumber_def trimString_def isWhiteSpace_def signedDecimal_def
  unsignedDecimal_def unsignedDecimalLiteral_def isDigit_def digitOf_def exponentPart_def
  decimalDigits_def scale10_def finiteOrInf_def radixOf_def nonDecimalInteger_def negate_def
  ascii_def cu_def




lemma Number_trims: "Number (JStr (0xFEFF # 0x2028 # ascii '' -2.5e1'' @ [0x3000, 0x2003])) = Fin (- 25)"
  by (simp add: parse_eval)




















end
